theory Spec2Isabelle
  imports Main
begin

section \<open>Python text and bytes\<close>

text \<open>
  A Python \<open>str\<close> is a sequence of Unicode code points, a \<open>bytes\<close> value a sequence of
  octets. Literals of the script are ASCII and are written with \<open>py\<close>.
\<close>

type_synonym pystr = "nat list"

type_synonym bytes = "char list"

definition py :: "string \<Rightarrow> pystr" where
  "py s = map of_char s"

text \<open>
  The characters that \<open>\s\<close> of a \<open>str\<close> pattern and \<open>str.strip()\<close> treat as whitespace
  (the interpreter's Unicode whitespace table).
\<close>

definition is_space :: "nat \<Rightarrow> bool" where
  "is_space c =
     ((0x09 \<le> c \<and> c \<le> 0x0D) \<or> (0x1C \<le> c \<and> c \<le> 0x20) \<or> c = 0x85 \<or> c = 0xA0 \<or>
      c = 0x1680 \<or> (0x2000 \<le> c \<and> c \<le> 0x200A) \<or> c = 0x2028 \<or> c = 0x2029 \<or>
      c = 0x202F \<or> c = 0x205F \<or> c = 0x3000)"

text \<open>The line boundaries of \<open>str.splitlines()\<close>; CR LF counts as one boundary.\<close>

definition is_linebreak :: "nat \<Rightarrow> bool" where
  "is_linebreak c =
     (c = 0x0A \<or> c = 0x0B \<or> c = 0x0C \<or> c = 0x0D \<or> c = 0x1C \<or> c = 0x1D \<or> c = 0x1E \<or>
      c = 0x85 \<or> c = 0x2028 \<or> c = 0x2029)"

fun splitlines_from :: "pystr \<Rightarrow> pystr \<Rightarrow> pystr list" where
  "splitlines_from cur [] = (if cur = [] then [] else [cur])"
| "splitlines_from cur [c] =
     (if is_linebreak c then [cur] else [cur @ [c]])"
| "splitlines_from cur (c # d # cs) =
     (if c = 0x0D \<and> d = 0x0A then cur # splitlines_from [] cs
      else if is_linebreak c then cur # splitlines_from [] (d # cs)
      else splitlines_from (cur @ [c]) (d # cs))"

definition splitlines :: "pystr \<Rightarrow> pystr list" where
  "splitlines s = splitlines_from [] s"

text \<open>\<open>sep.join(xs)\<close>.\<close>

fun join :: "pystr \<Rightarrow> pystr list \<Rightarrow> pystr" where
  "join sep [] = []"
| "join sep [x] = x"
| "join sep (x # y # ys) = x @ sep @ join sep (y # ys)"

text \<open>\<open>str.strip()\<close> without arguments.\<close>

definition strip :: "pystr \<Rightarrow> pystr" where
  "strip s = rev (dropWhile is_space (rev (dropWhile is_space s)))"

text \<open>\<open>str(n)\<close> and the format \<open>{n:03d}\<close> for a non-negative integer.\<close>

fun str_nat :: "nat \<Rightarrow> pystr" where
  "str_nat n = (if n < 10 then [48 + n] else str_nat (n div 10) @ [48 + n mod 10])"

declare str_nat.simps [simp del]

definition fmt_03d :: "nat \<Rightarrow> pystr" where
  "fmt_03d n = replicate (3 - length (str_nat n)) 48 @ str_nat n"

text \<open>
  Reading a file in text mode (\<open>newline=None\<close>) turns CR LF and a lone CR into LF.
\<close>

fun universal_newlines :: "pystr \<Rightarrow> pystr" where
  "universal_newlines [] = []"
| "universal_newlines [c] = [if c = 0x0D then 0x0A else c]"
| "universal_newlines (c # d # cs) =
     (if c = 0x0D \<and> d = 0x0A then 0x0A # universal_newlines cs
      else (if c = 0x0D then 0x0A else c) # universal_newlines (d # cs))"

subsection \<open>The UTF-8 codec\<close>

text \<open>
  The codec belongs to the interpreter, not to the script; it is modelled after its
  documented behaviour. One step reads the sequence at the head of the input: a code point
  and its length, or the length of the malformed range the error handler is given.
\<close>

datatype utf8_item = Decoded nat nat | Malformed nat

datatype py_error = UnicodeDecodeError

definition is_cont :: "nat \<Rightarrow> bool" where
  "is_cont b = (0x80 \<le> b \<and> b < 0xC0)"

fun utf8_step :: "nat list \<Rightarrow> utf8_item" where
  "utf8_step [] = Malformed 0"
| "utf8_step (b0 # bs) =
    (if b0 < 0x80 then Decoded b0 1
     else if b0 < 0xC2 then Malformed 1
     else if b0 < 0xE0 then
       (case bs of
          [] \<Rightarrow> Malformed 1
        | b1 # _ \<Rightarrow>
            if is_cont b1 then Decoded ((b0 - 0xC0) * 0x40 + (b1 - 0x80)) 2
            else Malformed 1)
     else if b0 < 0xF0 then
       (case bs of
          [] \<Rightarrow> Malformed 1
        | b1 # r1 \<Rightarrow>
            if \<not> is_cont b1 \<or> (b0 = 0xE0 \<and> b1 < 0xA0) \<or> (b0 = 0xED \<and> 0xA0 \<le> b1)
            then Malformed 1
            else (case r1 of
                    [] \<Rightarrow> Malformed 2
                  | b2 # _ \<Rightarrow>
                      if is_cont b2
                      then Decoded ((b0 - 0xE0) * 0x1000 + (b1 - 0x80) * 0x40 + (b2 - 0x80)) 3
                      else Malformed 2))
     else if b0 < 0xF5 then
       (case bs of
          [] \<Rightarrow> Malformed 1
        | b1 # r1 \<Rightarrow>
            if \<not> is_cont b1 \<or> (b0 = 0xF0 \<and> b1 < 0x90) \<or> (b0 = 0xF4 \<and> 0x90 \<le> b1)
            then Malformed 1
            else (case r1 of
                    [] \<Rightarrow> Malformed 2
                  | b2 # r2 \<Rightarrow>
                      if \<not> is_cont b2 then Malformed 2
                      else (case r2 of
                              [] \<Rightarrow> Malformed 3
                            | b3 # _ \<Rightarrow>
                                if is_cont b3
                                then Decoded ((b0 - 0xF0) * 0x40000 + (b1 - 0x80) * 0x1000
                                              + (b2 - 0x80) * 0x40 + (b3 - 0x80)) 4
                                else Malformed 3)))
     else Malformed 1)"

fun utf8_items :: "nat list \<Rightarrow> utf8_item list" where
  "utf8_items [] = []"
| "utf8_items (b # bs) =
    (case utf8_step (b # bs) of
       Decoded c n \<Rightarrow> Decoded c n # utf8_items (drop (n - 1) bs)
     | Malformed n \<Rightarrow> Malformed n # utf8_items (drop (n - 1) bs))"

fun is_malformed :: "utf8_item \<Rightarrow> bool" where
  "is_malformed (Malformed n) = True"
| "is_malformed (Decoded c n) = False"

text \<open>\<open>b.decode("utf-8")\<close>: the strict handler raises at the first malformed range.\<close>

definition decode_strict :: "bytes \<Rightarrow> py_error + pystr" where
  "decode_strict bs =
     (let its = utf8_items (map of_char bs)
      in if list_ex is_malformed its then Inl UnicodeDecodeError
         else Inr (concat (map (\<lambda>it. case it of Decoded c n \<Rightarrow> [c] | Malformed n \<Rightarrow> []) its)))"

text \<open>\<open>b.decode("utf-8", errors="ignore")\<close>: malformed ranges are dropped.\<close>

definition decode_ignore :: "bytes \<Rightarrow> pystr" where
  "decode_ignore bs =
     concat (map (\<lambda>it. case it of Decoded c n \<Rightarrow> [c] | Malformed n \<Rightarrow> [])
       (utf8_items (map of_char bs)))"

text \<open>
  \<open>b.decode("utf-8", errors="replace")\<close>: every malformed range becomes U+FFFD. The script
  never calls it; it is here for comparison with \<open>decode_ignore\<close>.
\<close>

definition decode_replace :: "bytes \<Rightarrow> pystr" where
  "decode_replace bs =
     map (\<lambda>it. case it of Decoded c n \<Rightarrow> c | Malformed n \<Rightarrow> 0xFFFD)
       (utf8_items (map of_char bs))"

section \<open>Regular expressions\<close>

text \<open>
  The patterns of the script, as syntax trees, matched by derivatives. Both patterns are
  anchored with \<open>^\<close> and \<open>$\<close> and used with \<open>re.match\<close>, so a line matches when the whole
  line is in the language of the pattern. (\<open>$\<close> also matches before a final line feed; the
  \<open>\s*\<close> in front of it takes that line feed, which is whitespace.)
\<close>

datatype regex =
    Never
  | Empty
  | Sym "nat \<Rightarrow> bool"
  | Alt regex regex
  | Seq regex regex
  | Star regex

primrec nullable :: "regex \<Rightarrow> bool" where
  "nullable Never = False"
| "nullable Empty = True"
| "nullable (Sym p) = False"
| "nullable (Alt r s) = (nullable r \<or> nullable s)"
| "nullable (Seq r s) = (nullable r \<and> nullable s)"
| "nullable (Star r) = True"

primrec deriv :: "nat \<Rightarrow> regex \<Rightarrow> regex" where
  "deriv c Never = Never"
| "deriv c Empty = Never"
| "deriv c (Sym p) = (if p c then Empty else Never)"
| "deriv c (Alt r s) = Alt (deriv c r) (deriv c s)"
| "deriv c (Seq r s) =
     (if nullable r then Alt (Seq (deriv c r) s) (deriv c s) else Seq (deriv c r) s)"
| "deriv c (Star r) = Seq (deriv c r) (Star r)"

definition re_match :: "regex \<Rightarrow> pystr \<Rightarrow> bool" where
  "re_match r s = nullable (foldl (\<lambda>q c. deriv c q) r s)"

primrec lit :: "pystr \<Rightarrow> regex" where
  "lit [] = Empty"
| "lit (c # cs) = Seq (Sym (\<lambda>x. x = c)) (lit cs)"

text \<open>\<^verbatim>\<open>FENCE_RE = re.compile(r"^\s*```(mermaid|mermaidjs)\s*$")\<close>\<close>

definition FENCE_RE :: regex where
  "FENCE_RE =
     Seq (Star (Sym is_space))
       (Seq (lit (py ''```''))
          (Seq (Alt (lit (py ''mermaid'')) (lit (py ''mermaidjs'')))
             (Star (Sym is_space))))"

text \<open>\<^verbatim>\<open>END_FENCE_RE = re.compile(r"^\s*```\s*$")\<close>\<close>

definition END_FENCE_RE :: regex where
  "END_FENCE_RE =
     Seq (Star (Sym is_space)) (Seq (lit (py ''```'')) (Star (Sym is_space)))"

text \<open>
  \<^verbatim>\<open>re.sub(r"[^A-Za-z0-9_.-]", "_", str(p))\<close>: every character outside the class is
  replaced by an underscore.
\<close>

definition safe_char :: "nat \<Rightarrow> bool" where
  "safe_char c =
     ((of_char CHR ''A'' \<le> c \<and> c \<le> of_char CHR ''Z'') \<or>
      (of_char CHR ''a'' \<le> c \<and> c \<le> of_char CHR ''z'') \<or>
      (of_char CHR ''0'' \<le> c \<and> c \<le> of_char CHR ''9'') \<or>
      c = of_char CHR ''_'' \<or> c = of_char CHR ''.'' \<or> c = of_char CHR ''-'')"

definition re_sub_chars :: "(nat \<Rightarrow> bool) \<Rightarrow> pystr \<Rightarrow> pystr \<Rightarrow> pystr" where
  "re_sub_chars cls repl s = concat (map (\<lambda>c. if cls c then repl else [c]) s)"

definition safe_name :: "pystr \<Rightarrow> pystr" where
  "safe_name p = re_sub_chars (\<lambda>c. \<not> safe_char c) (py ''_'') p"

section \<open>Block extraction\<close>

record Block =
  block_file :: pystr
  start_line :: nat
  index_in_file :: nat
  content :: pystr

text \<open>The local variables of the scanning loop of \<open>find_mermaid_blocks\<close>.\<close>

record scan =
  in_block :: bool
  cur_start_line :: nat
  buf :: "pystr list"
  block_idx :: nat
  blocks :: "Block list"

definition scan_init :: scan where
  "scan_init = \<lparr>in_block = False, cur_start_line = 0, buf = [], block_idx = 0, blocks = []\<rparr>"

text \<open>One iteration of \<^verbatim>\<open>for i, line in enumerate(lines, start=1)\<close>.\<close>

definition scan_line :: "pystr \<Rightarrow> scan \<Rightarrow> nat \<times> pystr \<Rightarrow> scan" where
  "scan_line path s il =
     (case il of (i, line) \<Rightarrow>
        if \<not> in_block s \<and> re_match FENCE_RE line then
          s\<lparr>in_block := True, cur_start_line := i, buf := []\<rparr>
        else if in_block s \<and> re_match END_FENCE_RE line then
          s\<lparr>block_idx := block_idx s + 1,
            blocks := blocks s @
              [\<lparr>block_file = path, start_line = cur_start_line s,
                index_in_file = block_idx s + 1, content = join [0x0A] (buf s)\<rparr>],
            in_block := False, buf := []\<rparr>
        else if in_block s then s\<lparr>buf := buf s @ [line]\<rparr>
        else s)"

definition scan_lines :: "pystr \<Rightarrow> pystr list \<Rightarrow> Block list" where
  "scan_lines path lines = blocks (foldl (scan_line path) scan_init (enumerate 1 lines))"

section \<open>The environment of a run\<close>

text \<open>
  What the script asks of the operating system is a parameter of the model: the search
  path, the file system as the run finds it, and the external renderer. The file system
  and the search path are taken not to change during a run; everything else that may
  differ from call to call depends on a state \<open>'w\<close> of the outside world, threaded through
  the calls.
\<close>

datatype fs_node = Missing | Directory | RegularFile bytes

text \<open>
  The outcome of \<open>subprocess.run\<close>: a completed process with its return code, standard
  output and standard error, or the \<open>FileNotFoundError\<close> that \<open>run_mmdc\<close> catches.
\<close>

datatype proc = CompletedProcess int bytes bytes | FileNotFoundError pystr

record 'w env =
  which :: "pystr \<Rightarrow> pystr option"
  glob :: "pystr \<Rightarrow> pystr list"
  resolve :: "pystr \<Rightarrow> pystr"
  node :: "pystr \<Rightarrow> fs_node"
  mkdtemp :: "'w \<Rightarrow> pystr \<Rightarrow> pystr \<times> 'w"
  spawn :: "'w \<Rightarrow> pystr list \<Rightarrow> proc \<times> 'w"
  remove_scratch :: "'w \<Rightarrow> pystr \<Rightarrow> bool \<times> 'w"

text \<open>\<open>Path.exists()\<close> and \<open>Path.is_file()\<close>.\<close>

definition exists :: "'w env \<Rightarrow> pystr \<Rightarrow> bool" where
  "exists env p = (node env p \<noteq> Missing)"


text \<open>
  The effects of a run, in the order they happen: lines printed, directories made, texts
  written to files, and processes run with their outcomes.
\<close>

datatype stream = Stdout | Stderr

record 'w os =
  world :: 'w
  printed :: "(stream \<times> pystr) list"
  made_dirs :: "pystr list"
  written :: "(pystr \<times> pystr) list"
  calls :: "(pystr list \<times> proc) list"

definition print :: "stream \<Rightarrow> pystr \<Rightarrow> 'w os \<Rightarrow> 'w os" where
  "print f line s = s\<lparr>printed := printed s @ [(f, line)]\<rparr>"

definition write_text :: "pystr \<Rightarrow> pystr \<Rightarrow> 'w os \<Rightarrow> 'w os" where
  "write_text path text s = s\<lparr>written := written s @ [(path, text)]\<rparr>"

definition tempfile_mkdtemp :: "'w env \<Rightarrow> pystr \<Rightarrow> 'w os \<Rightarrow> pystr \<times> 'w os" where
  "tempfile_mkdtemp env prefix s =
     (case mkdtemp env (world s) prefix of
        (d, w) \<Rightarrow> (d, s\<lparr>world := w, made_dirs := made_dirs s @ [d]\<rparr>))"

definition subprocess_run :: "'w env \<Rightarrow> pystr list \<Rightarrow> 'w os \<Rightarrow> proc \<times> 'w os" where
  "subprocess_run env cmd s =
     (case spawn env (world s) cmd of
        (r, w) \<Rightarrow> (r, s\<lparr>world := w, calls := calls s @ [(cmd, r)]\<rparr>))"

text \<open>Joining a directory with a relative name, and the final component of a path.\<close>

definition path_join :: "pystr \<Rightarrow> pystr \<Rightarrow> pystr" where
  "path_join d n = d @ py ''/'' @ n"

definition path_name :: "pystr \<Rightarrow> pystr" where
  "path_name p = rev (takeWhile (\<lambda>c. c \<noteq> of_char CHR ''/'') (rev p))"

section \<open>Reading a document\<close>

text \<open>
  \<open>find_mermaid_blocks\<close>: not a regular file, no blocks; otherwise the strict read, and
  on \<open>UnicodeDecodeError\<close> the read with \<open>errors="ignore"\<close>.
\<close>

definition read_lines :: "bytes \<Rightarrow> pystr list" where
  "read_lines bs =
     (case decode_strict bs of
        Inr text \<Rightarrow> splitlines (universal_newlines text)
      | Inl UnicodeDecodeError \<Rightarrow> splitlines (universal_newlines (decode_ignore bs)))"

definition find_mermaid_blocks :: "'w env \<Rightarrow> pystr \<Rightarrow> Block list" where
  "find_mermaid_blocks env path =
     (case node env path of
        RegularFile bs \<Rightarrow> scan_lines path (read_lines bs)
      | _ \<Rightarrow> [])"

section \<open>Resolving inputs and the renderer\<close>

text \<open>The two loops of \<open>expand_inputs\<close>: globbing, then de-duplication in order.\<close>

fun expand_loop :: "'w env \<Rightarrow> pystr list \<Rightarrow> pystr list \<Rightarrow> pystr list" where
  "expand_loop env out [] = out"
| "expand_loop env out (p # ps) =
     (let matches = glob env p
      in if matches \<noteq> [] then expand_loop env (out @ matches) ps
         else expand_loop env (out @ [p]) ps)"

fun dedup_loop :: "'w env \<Rightarrow> pystr set \<Rightarrow> pystr list \<Rightarrow> pystr list \<Rightarrow> pystr list" where
  "dedup_loop env seen deduped [] = deduped"
| "dedup_loop env seen deduped (p # ps) =
     (let rp = resolve env p
      in if rp \<notin> seen then dedup_loop env (insert rp seen) (deduped @ [rp]) ps
         else dedup_loop env seen deduped ps)"

definition expand_inputs :: "'w env \<Rightarrow> pystr list \<Rightarrow> pystr list" where
  "expand_inputs env patterns = dedup_loop env {} [] (expand_loop env [] patterns)"

definition which_mmdc :: "'w env \<Rightarrow> pystr list option" where
  "which_mmdc env =
     (case which env (py ''mmdc'') of
        Some (c # cs) \<Rightarrow> Some [c # cs]
      | _ \<Rightarrow>
        (case which env (py ''npx'') of
           Some (c # cs) \<Rightarrow> Some [c # cs, py ''-y'', py ''@mermaid-js/mermaid-cli'', py ''mmdc'']
         | _ \<Rightarrow> None))"

text \<open>The command vector that \<open>run_mmdc\<close> builds.\<close>

definition mmdc_cmd ::
  "pystr list \<Rightarrow> pystr \<Rightarrow> pystr \<Rightarrow> pystr \<Rightarrow> pystr option \<Rightarrow> pystr list" where
  "mmdc_cmd cmd_base in_file out_file theme config =
     (let cmd = cmd_base @ [py ''-i'', in_file, py ''-o'', out_file, py ''--theme'', theme]
      in case config of Some c \<Rightarrow> cmd @ [py ''--configFile'', c] | None \<Rightarrow> cmd)"

definition run_mmdc ::
  "'w env \<Rightarrow> pystr list \<Rightarrow> pystr \<Rightarrow> pystr \<Rightarrow> pystr \<Rightarrow> pystr option \<Rightarrow> 'w os
     \<Rightarrow> (bool \<times> pystr) \<times> 'w os" where
  "run_mmdc env cmd_base in_file out_file theme config s =
     (let cmd = mmdc_cmd cmd_base in_file out_file theme config
      in case subprocess_run env cmd s of
           (CompletedProcess returncode out err, s') \<Rightarrow>
             ((returncode = 0, strip (decode_ignore (if err \<noteq> [] then err else out))), s')
         | (FileNotFoundError e, s') \<Rightarrow>
             ((False, py ''Failed to execute mmdc: '' @ e), s'))"

section \<open>The orchestrator\<close>

text \<open>
  The parsed command line. Parsing itself (\<open>argparse\<close>) is not modelled: a run starts
  from the parsed arguments.
\<close>

record args =
  inputs :: "pystr list"
  config :: "pystr option"
  theme :: pystr
  keep :: bool
  quiet :: bool

text \<open>The counters of \<open>main\<close>, with the effects so far.\<close>

record 'w vars =
  failed :: nat
  total :: nat
  found_any :: nat
  os :: "'w os"

text \<open>\<^verbatim>\<open>stem = f"{safe_name(md)}.block_{b.index_in_file:03d}.mmd"\<close>\<close>

definition scratch_stem :: "pystr \<Rightarrow> Block \<Rightarrow> pystr" where
  "scratch_stem md b =
     safe_name md @ py ''.block_'' @ fmt_03d (index_in_file b) @ py ''.mmd''"

text \<open>The body of \<^verbatim>\<open>for b in blocks\<close>.\<close>

definition check_block ::
  "'w env \<Rightarrow> args \<Rightarrow> pystr \<Rightarrow> pystr list \<Rightarrow> pystr \<Rightarrow> 'w vars \<Rightarrow> Block \<Rightarrow> 'w vars" where
  "check_block env a tmpdir cmd_base md v b =
     (let v = v\<lparr>total := total v + 1\<rparr>;
          stem = scratch_stem md b;
          in_file = path_join tmpdir stem;
          out_file = path_join tmpdir (stem @ py ''.svg'');
          s1 = write_text in_file (content b) (os v)
      in case run_mmdc env cmd_base in_file out_file (theme a) (config a) s1 of
           ((ok, msg), s2) \<Rightarrow>
             if ok then
               (if \<not> quiet a
                then v\<lparr>os := print Stdout
                       (py ''OK   '' @ md @ py '':'' @ str_nat (start_line b) @ py ''  (''
                          @ path_name in_file @ py '')'') s2\<rparr>
                else v\<lparr>os := s2\<rparr>)
             else
               (let v = v\<lparr>failed := failed v + 1\<rparr>;
                    first_line = (if msg \<noteq> [] then hd (splitlines msg) else py ''mmdc failed'');
                    s3 = print Stderr
                       (py ''ERR  '' @ md @ py '':'' @ str_nat (start_line b) @ py ''  (''
                          @ path_name in_file @ py '')  '' @ first_line) s2
                in if \<not> quiet a \<and> msg \<noteq> []
                   then v\<lparr>os := foldl (\<lambda>s line. print Stderr (py ''      '' @ line) s) s3
                                  (tl (splitlines msg))\<rparr>
                   else v\<lparr>os := s3\<rparr>))"

text \<open>The body of \<^verbatim>\<open>for md in files\<close>.\<close>

definition check_document ::
  "'w env \<Rightarrow> args \<Rightarrow> pystr \<Rightarrow> pystr list \<Rightarrow> 'w vars \<Rightarrow> pystr \<Rightarrow> 'w vars" where
  "check_document env a tmpdir cmd_base v md =
     (let blocks = find_mermaid_blocks env md
      in if blocks = [] then v
         else foldl (check_block env a tmpdir cmd_base md) (v\<lparr>found_any := 1\<rparr>) blocks)"

text \<open>The \<open>finally\<close> clause of \<open>main\<close>.\<close>

definition cleanup :: "'w env \<Rightarrow> args \<Rightarrow> pystr \<Rightarrow> 'w os \<Rightarrow> 'w os" where
  "cleanup env a tmpdir s =
     (if \<not> keep a then
        (case remove_scratch env (world s) tmpdir of
           (removed, w) \<Rightarrow>
             if \<not> removed \<and> \<not> quiet a
             then print Stderr (py ''Note: could not remove temp dir '' @ tmpdir) (s\<lparr>world := w\<rparr>)
             else s\<lparr>world := w\<rparr>)
      else s)"

text \<open>The input files of a run: \<^verbatim>\<open>[p for p in expand_inputs(args.inputs) if p.exists()]\<close>.\<close>

definition input_files :: "'w env \<Rightarrow> args \<Rightarrow> pystr list" where
  "input_files env a = filter (exists env) (expand_inputs env (inputs a))"

text \<open>
  \<open>main\<close> returns the exit status, which \<open>cli\<close> hands to \<open>sys.exit\<close>. The test
  \<^verbatim>\<open>if not cmd_base\<close> holds for \<open>None\<close> and for an empty command vector.
\<close>

definition main :: "'w env \<Rightarrow> args \<Rightarrow> 'w os \<Rightarrow> int \<times> 'w os" where
  "main env a s =
     (let cmd_base = which_mmdc env
      in if cmd_base = None \<or> cmd_base = Some [] then
           (2, print Stderr (py ''Install globally with: npm i -g @mermaid-js/mermaid-cli'')
                 (print Stderr (py ''ERROR: `mmdc` not found, and `npx` not available.'') s))
         else if (case config a of Some c \<Rightarrow> \<not> exists env c | None \<Rightarrow> False) then
           (2, print Stderr (py ''ERROR: config file not found: '' @ the (config a)) s)
         else
           (let files = input_files env a
            in if files = [] then (2, print Stderr (py ''ERROR: no input files found.'') s)
               else
                 (case tempfile_mkdtemp env (py ''mermaid_check_'') s of
                    (tmpdir, s1) \<Rightarrow>
                      (let v = foldl (check_document env a tmpdir (the cmd_base))
                                 \<lparr>failed = 0, total = 0, found_any = 0, os = s1\<rparr> files
                       in if found_any v = 0 then
                            (0, cleanup env a tmpdir
                                  (print Stdout (py ''No Mermaid blocks found in inputs.'') (os v)))
                          else
                            (if failed v = 0 then 0 else 1,
                             cleanup env a tmpdir
                               (print Stdout
                                  (py ''Checked: '' @ str_nat (total v) @ py ''   Failed: ''
                                     @ str_nat (failed v))
                                  (print Stdout (py ''----'') (os v))))))))"


section \<open>Vocabulary of the proofs\<close>




text \<open>A renderer invocation succeeded: the process ran and returned zero.\<close>

fun succeeded :: "proc \<Rightarrow> bool" where
  "succeeded (CompletedProcess returncode out err) = (returncode = 0)"
| "succeeded (FileNotFoundError e) = False"

text \<open>
  Where a block sits in the list of lines of its document: the opening fence, the lines of
  the body, none of which is a closing fence, and the closing fence.
\<close>

definition block_span :: "pystr list \<Rightarrow> Block \<Rightarrow> bool" where
  "block_span ls b =
     (\<exists>pre opn body cls post.
        ls = pre @ [opn] @ body @ [cls] @ post \<and> start_line b = Suc (length pre) \<and>
        re_match FENCE_RE opn \<and> re_match END_FENCE_RE cls \<and>
        (\<forall>l\<in>set body. \<not> re_match END_FENCE_RE l) \<and> content b = join [0x0A] body)"

definition scan_inv :: "pystr list \<Rightarrow> scan \<Rightarrow> bool" where
  "scan_inv seen s =
     ((\<forall>b\<in>set (blocks s). block_span seen b) \<and>
      (in_block s \<longrightarrow>
         (\<exists>pre opn. seen = pre @ [opn] @ buf s \<and> cur_start_line s = Suc (length pre) \<and>
            re_match FENCE_RE opn \<and> (\<forall>l\<in>set (buf s). \<not> re_match END_FENCE_RE l))))"


subsection \<open>What a run does\<close>

text \<open>
  The start of \<open>main\<close> ends the run with status 2 in three cases: no renderer, a
  configuration file that does not exist, no input file.
\<close>

definition startup_error :: "'w env \<Rightarrow> args \<Rightarrow> bool" where
  "startup_error env a =
     (which_mmdc env = None \<or> (case config a of Some c \<Rightarrow> \<not> exists env c | None \<Rightarrow> False) \<or>
      input_files env a = [])"

text \<open>
  The scratch directory of a run started in state \<open>s\<close>, the scratch input file of a block,
  and the blocks of all input files in the order of the two loops.
\<close>

definition run_tmpdir :: "'w env \<Rightarrow> 'w os \<Rightarrow> pystr" where
  "run_tmpdir env s = fst (mkdtemp env (world s) (py ''mermaid_check_''))"

definition in_file_of :: "pystr \<Rightarrow> pystr \<Rightarrow> Block \<Rightarrow> pystr" where
  "in_file_of tmpdir md b = path_join tmpdir (scratch_stem md b)"

definition run_blocks :: "'w env \<Rightarrow> args \<Rightarrow> (pystr \<times> Block) list" where
  "run_blocks env a =
     concat (map (\<lambda>md. map (Pair md) (find_mermaid_blocks env md)) (input_files env a))"

text \<open>What a run adds to the effects it started from.\<close>

definition new_calls :: "'w os \<Rightarrow> 'w os \<Rightarrow> (pystr list \<times> proc) list" where
  "new_calls s s' = drop (length (calls s)) (calls s')"

definition new_written :: "'w os \<Rightarrow> 'w os \<Rightarrow> (pystr \<times> pystr) list" where
  "new_written s s' = drop (length (written s)) (written s')"

definition stdout_lines :: "'w os \<Rightarrow> pystr list" where
  "stdout_lines s = map snd (filter (\<lambda>x. fst x = Stdout) (printed s))"

text \<open>The counters and effects when the loop over the input files has ended.\<close>

definition loop_result :: "'w env \<Rightarrow> args \<Rightarrow> 'w os \<Rightarrow> 'w vars" where
  "loop_result env a s =
     foldl (check_document env a (run_tmpdir env s) (the (which_mmdc env)))
       \<lparr>failed = 0, total = 0, found_any = 0,
        os = snd (tempfile_mkdtemp env (py ''mermaid_check_'') s)\<rparr>
       (input_files env a)"

text \<open>
  Progress of the loops from \<open>v\<close> to \<open>v'\<close>: the commands run and the texts written in
  between, with the counters following the outcomes.
\<close>

definition advances ::
  "'w vars \<Rightarrow> 'w vars \<Rightarrow> pystr list list \<Rightarrow> (pystr \<times> pystr) list \<Rightarrow> bool" where
  "advances v v' cmds ws =
     (\<exists>cs. calls (os v') = calls (os v) @ cs \<and> map fst cs = cmds \<and>
        failed v' = failed v + length (filter (\<lambda>c. \<not> succeeded (snd c)) cs) \<and>
        total v' = total v + length cmds \<and>
        written (os v') = written (os v) @ ws \<and>
        made_dirs (os v') = made_dirs (os v))"

text \<open>Decimal digits and the number they spell.\<close>

definition is_digit :: "nat \<Rightarrow> bool" where
  "is_digit c = (48 \<le> c \<and> c \<le> 57)"

definition decimal_value :: "pystr \<Rightarrow> nat" where
  "decimal_value ds = foldl (\<lambda>n c. 10 * n + (c - 48)) 0 ds"

subsection \<open>A small environment for concrete runs\<close>

text \<open>
  A renderer found through \<open>npx\<close>, a working directory \<open>/w\<close> with a few documents, and a
  renderer whose second invocation fails.
\<close>

definition demo_node :: "pystr \<Rightarrow> fs_node" where
  "demo_node p =
     (if p = py ''/w/README.md'' then
        RegularFile (''# T'' @ [CHR 0x0A] @ ''```mermaid'' @ [CHR 0x0D, CHR 0x0A]
          @ ''graph TD'' @ [CHR 0x0A] @ ''A-->B'' @ [CHR 0x0A] @ '' ``` '' @ [CHR 0x0A]
          @ ''```mermaidjs'' @ [CHR 0x0A] @ ''X'' @ [CHR 0x0A] @ ''```'' @ [CHR 0x0A]
          @ ''```mermaid'' @ [CHR 0x0A] @ ''open'')
      else if p = py ''/w/bad.md'' then
        RegularFile (''```mermaid'' @ [CHR 0x0A] @ ''A'' @ [CHR 0xFF] @ [CHR 0x0A] @ ''```'')
      else if p = py ''/w/docs'' then Directory
      else if p = py ''/w/a/b.md'' \<or> p = py ''/w/a_b.md'' then
        RegularFile (''```mermaid'' @ [CHR 0x0A] @ ''Z'' @ [CHR 0x0A] @ ''```'')
      else Missing)"

definition demo_env :: "nat env" where
  "demo_env =
     \<lparr>which = (\<lambda>n. if n = py ''npx'' then Some (py ''/bin/npx'') else None),
      glob = (\<lambda>p. if p = py ''*.md'' then [py ''README.md'', py ''bad.md''] else []),
      resolve = (\<lambda>p. if take 1 p = py ''/'' then p else py ''/w/'' @ p),
      node = demo_node,
      mkdtemp = (\<lambda>w prefix. (py ''/tmp/'' @ prefix @ py ''k3'', w)),
      spawn = (\<lambda>w cmd.
        (if w = 1 then CompletedProcess 1 [] (''Parse error'' @ [CHR 0xFF, CHR 0x0A] @ ''line 2 '')
         else CompletedProcess 0 [] [], Suc w)),
      remove_scratch = (\<lambda>w d. (True, w))\<rparr>"

definition demo_os :: "nat os" where
  "demo_os = \<lparr>world = 0, printed = [], made_dirs = [], written = [], calls = []\<rparr>"

definition demo_args :: args where
  "demo_args =
     \<lparr>inputs = [py ''/w/a/b.md''], config = None, theme = py ''default'',
      keep = False, quiet = False\<rparr>"

section \<open>Evaluation rules\<close>

lemmas text_defs = py_def splitlines_def is_linebreak_def is_space_def strip_def fmt_03d_def
  str_nat.simps decode_strict_def decode_ignore_def decode_replace_def is_cont_def

lemmas re_defs = re_match_def FENCE_RE_def END_FENCE_RE_def safe_name_def safe_char_def
  re_sub_chars_def

lemmas scan_defs = scan_lines_def scan_line_def scan_init_def enumerate_eq_zip read_lines_def
  find_mermaid_blocks_def

lemmas demo_defs = demo_node_def demo_env_def demo_os_def demo_args_def


section \<open>Matching and the language of a pattern\<close>










section \<open>The scanning loop\<close>

lemma scan_line_idx:
  "map index_in_file (blocks s) = [1..<Suc (block_idx s)] \<Longrightarrow>
   map index_in_file (blocks (scan_line p s il)) = [1..<Suc (block_idx (scan_line p s il))]"
  by (cases il) (simp add: scan_line_def upt_Suc_append del: upt_Suc)

lemma foldl_scan_idx:
  "map index_in_file (blocks s) = [1..<Suc (block_idx s)] \<Longrightarrow>
   map index_in_file (blocks (foldl (scan_line p) s ils)) =
     [1..<Suc (block_idx (foldl (scan_line p) s ils))]"
  by (induction ils arbitrary: s) (simp_all add: scan_line_idx)

lemma scan_lines_idx:
  "map index_in_file (scan_lines p ls) = [1..<Suc (length (scan_lines p ls))]"
proof -
  let ?s = "foldl (scan_line p) scan_init (enumerate 1 ls)"
  have a: "map index_in_file (blocks ?s) = [1..<Suc (block_idx ?s)]"
    by (rule foldl_scan_idx) (simp add: scan_init_def)
  then have "length (blocks ?s) = block_idx ?s"
    by (metis length_map length_upt diff_Suc_1)
  with a show ?thesis by (simp add: scan_lines_def)
qed

lemma scan_line_no_end:
  "\<not> re_match END_FENCE_RE (snd il) \<Longrightarrow> blocks (scan_line p s il) = blocks s"
  by (cases il) (simp add: scan_line_def)

lemma foldl_scan_no_end:
  "\<forall>il\<in>set ils. \<not> re_match END_FENCE_RE (snd il) \<Longrightarrow>
   blocks (foldl (scan_line p) s ils) = blocks s"
  by (induction ils arbitrary: s) (simp_all add: scan_line_no_end)

lemma scan_lines_append_no_end:
  assumes "\<forall>l\<in>set ys. \<not> re_match END_FENCE_RE l"
  shows "scan_lines p (ls @ ys) = scan_lines p ls"
proof -
  have "\<forall>il\<in>set (enumerate (1 + length ls) ys). \<not> re_match END_FENCE_RE (snd il)"
    using assms by (auto simp: in_set_enumerate_eq)
  then show ?thesis
    by (simp add: scan_lines_def enumerate_append_eq foldl_scan_no_end)
qed

lemma scan_line_count:
  "length (blocks (scan_line p s il)) =
     length (blocks s) + (if in_block s \<and> re_match END_FENCE_RE (snd il) then 1 else 0)"
  by (cases il) (simp add: scan_line_def)

lemma foldl_scan_count:
  "length (blocks (foldl (scan_line p) s ils)) \<le>
     length (blocks s) + length (filter (re_match END_FENCE_RE) (map snd ils))"
proof (induction ils arbitrary: s)
  case Nil
  show ?case by simp
next
  case (Cons il ils)
  have "length (blocks (foldl (scan_line p) (scan_line p s il) ils)) \<le>
     length (blocks (scan_line p s il)) + length (filter (re_match END_FENCE_RE) (map snd ils))"
    by (rule Cons.IH)
  then show ?case by (simp add: scan_line_count split: if_splits)
qed

lemma scan_lines_count:
  "length (scan_lines p ls) \<le> length (filter (re_match END_FENCE_RE) ls)"
  using foldl_scan_count [of p scan_init "enumerate 1 ls"]
  by (simp add: scan_lines_def scan_init_def)

lemma block_span_snoc: "block_span ls b \<Longrightarrow> block_span (ls @ [l]) b"
proof -
  assume "block_span ls b"
  then obtain pre opn body cls post where
    h: "ls = pre @ [opn] @ body @ [cls] @ post" "start_line b = Suc (length pre)"
       "re_match FENCE_RE opn" "re_match END_FENCE_RE cls"
       "\<forall>l\<in>set body. \<not> re_match END_FENCE_RE l" "content b = join [0x0A] body"
    unfolding block_span_def by blast
  from h(1) have "ls @ [l] = pre @ [opn] @ body @ [cls] @ (post @ [l])" by simp
  with h(2-6) show ?thesis unfolding block_span_def by blast
qed

lemma scan_inv_step:
  assumes "scan_inv seen s"
  shows "scan_inv (seen @ [l]) (scan_line p s (Suc (length seen), l))"
proof -
  from assms have old: "\<forall>b\<in>set (blocks s). block_span (seen @ [l]) b"
    by (simp add: scan_inv_def block_span_snoc)
  consider (opens) "\<not> in_block s" "re_match FENCE_RE l"
    | (closes) "in_block s" "re_match END_FENCE_RE l"
    | (inside) "in_block s" "\<not> re_match END_FENCE_RE l"
    | (outside) "\<not> in_block s" "\<not> re_match FENCE_RE l"
    by blast
  then show ?thesis
  proof cases
    case opens
    then have "scan_line p s (Suc (length seen), l) =
        s\<lparr>in_block := True, cur_start_line := Suc (length seen), buf := []\<rparr>"
      by (simp add: scan_line_def)
    with old opens show ?thesis by (simp add: scan_inv_def)
  next
    case closes
    with assms obtain pre opn where
      o: "seen = pre @ [opn] @ buf s" "cur_start_line s = Suc (length pre)"
         "re_match FENCE_RE opn" "\<forall>l\<in>set (buf s). \<not> re_match END_FENCE_RE l"
      unfolding scan_inv_def by blast
    let ?b = "\<lparr>block_file = p, start_line = cur_start_line s,
                index_in_file = block_idx s + 1, content = join [0x0A] (buf s)\<rparr>"
    from o(1) have "seen @ [l] = pre @ [opn] @ buf s @ [l] @ []" by simp
    with o(2-4) closes(2) have "block_span (seen @ [l]) ?b"
      unfolding block_span_def by (intro exI [of _ pre] exI [of _ opn] exI [of _ "buf s"]
        exI [of _ l] exI [of _ "[]"]) simp
    moreover from closes have "scan_line p s (Suc (length seen), l) =
        s\<lparr>block_idx := block_idx s + 1, blocks := blocks s @ [?b],
          in_block := False, buf := []\<rparr>"
      by (simp add: scan_line_def)
    ultimately show ?thesis using old by (simp add: scan_inv_def)
  next
    case inside
    with assms obtain pre opn where
      o: "seen = pre @ [opn] @ buf s" "cur_start_line s = Suc (length pre)"
         "re_match FENCE_RE opn" "\<forall>l\<in>set (buf s). \<not> re_match END_FENCE_RE l"
      unfolding scan_inv_def by blast
    from inside have "scan_line p s (Suc (length seen), l) = s\<lparr>buf := buf s @ [l]\<rparr>"
      by (simp add: scan_line_def)
    moreover from o(1) have "seen @ [l] = pre @ [opn] @ (buf s @ [l])" by simp
    ultimately show ?thesis using old inside o(2-4) by (simp add: scan_inv_def)
  next
    case outside
    then have "scan_line p s (Suc (length seen), l) = s"
      by (simp add: scan_line_def)
    with old outside show ?thesis by (simp add: scan_inv_def)
  qed
qed

lemma scan_inv_foldl:
  "scan_inv seen s \<Longrightarrow>
   scan_inv (seen @ ls) (foldl (scan_line p) s (enumerate (Suc (length seen)) ls))"
proof (induction ls arbitrary: seen s)
  case Nil
  then show ?case by simp
next
  case (Cons l ls)
  from Cons.prems have "scan_inv (seen @ [l]) (scan_line p s (Suc (length seen), l))"
    by (rule scan_inv_step)
  from Cons.IH [OF this] show ?case by simp
qed

lemma scan_lines_span: "b \<in> set (scan_lines p ls) \<Longrightarrow> block_span ls b"
proof -
  have "scan_inv [] scan_init" by (simp add: scan_inv_def scan_init_def)
  from scan_inv_foldl [OF this, of ls p] show "b \<in> set (scan_lines p ls) \<Longrightarrow> block_span ls b"
    by (simp add: scan_inv_def scan_lines_def)
qed

lemma scan_line_extends: "\<exists>more. blocks (scan_line p s il) = blocks s @ more"
  by (cases il) (simp add: scan_line_def)

lemma foldl_scan_extends: "\<exists>more. blocks (foldl (scan_line p) s ils) = blocks s @ more"
proof (induction ils arbitrary: s)
  case Nil
  show ?case by simp
next
  case (Cons il ils)
  obtain m1 where "blocks (scan_line p s il) = blocks s @ m1"
    using scan_line_extends by blast
  moreover obtain m2 where
    "blocks (foldl (scan_line p) (scan_line p s il) ils) = blocks (scan_line p s il) @ m2"
    using Cons.IH by blast
  ultimately show ?case by simp
qed

lemma scan_lines_prefix:
  "take (length (scan_lines p ls)) (scan_lines p (ls @ ys)) = scan_lines p ls"
proof -
  obtain more where
    "blocks (foldl (scan_line p) (foldl (scan_line p) scan_init (enumerate 1 ls))
       (enumerate (1 + length ls) ys)) =
     blocks (foldl (scan_line p) scan_init (enumerate 1 ls)) @ more"
    using foldl_scan_extends by blast
  then show ?thesis
    by (simp add: scan_lines_def enumerate_append_eq)
qed

section \<open>The loops of the orchestrator\<close>

lemma advances_refl: "advances v v [] []"
  by (simp add: advances_def)

lemma advances_trans:
  assumes "advances v v' c1 w1" "advances v' v'' c2 w2"
  shows "advances v v'' (c1 @ c2) (w1 @ w2)"
proof -
  from assms(1) obtain cs1 where
    a: "calls (os v') = calls (os v) @ cs1" "map fst cs1 = c1"
       "failed v' = failed v + length (filter (\<lambda>c. \<not> succeeded (snd c)) cs1)"
       "total v' = total v + length c1" "written (os v') = written (os v) @ w1"
       "made_dirs (os v') = made_dirs (os v)"
    unfolding advances_def by blast
  from assms(2) obtain cs2 where
    b: "calls (os v'') = calls (os v') @ cs2" "map fst cs2 = c2"
       "failed v'' = failed v' + length (filter (\<lambda>c. \<not> succeeded (snd c)) cs2)"
       "total v'' = total v' + length c2" "written (os v'') = written (os v') @ w2"
       "made_dirs (os v'') = made_dirs (os v')"
    unfolding advances_def by blast
  show ?thesis
    unfolding advances_def
    by (rule exI [of _ "cs1 @ cs2"]) (simp add: a b)
qed

lemma print_fields [simp]:
  "calls (print f l s) = calls s" "written (print f l s) = written s"
  "made_dirs (print f l s) = made_dirs s" "world (print f l s) = world s"
  "printed (print f l s) = printed s @ [(f, l)]"
  by (simp_all add: print_def)

lemma write_text_fields [simp]:
  "calls (write_text p t s) = calls s" "written (write_text p t s) = written s @ [(p, t)]"
  "made_dirs (write_text p t s) = made_dirs s" "world (write_text p t s) = world s"
  "printed (write_text p t s) = printed s"
  by (simp_all add: write_text_def)

lemma foldl_print_fields [simp]:
  "calls (foldl (\<lambda>s line. print f (g line) s) s ls) = calls s"
  "written (foldl (\<lambda>s line. print f (g line) s) s ls) = written s"
  "made_dirs (foldl (\<lambda>s line. print f (g line) s) s ls) = made_dirs s"
  by (induction ls arbitrary: s) simp_all

lemma run_mmdc_fields:
  assumes "run_mmdc env cb i out th c s = ((ok, msg), s')"
  shows "calls s' = calls s @ [(mmdc_cmd cb i out th c, fst (spawn env (world s) (mmdc_cmd cb i out th c)))]"
    and "ok = succeeded (fst (spawn env (world s) (mmdc_cmd cb i out th c)))"
    and "written s' = written s" and "made_dirs s' = made_dirs s" and "printed s' = printed s"
  using assms
  by (auto simp: run_mmdc_def subprocess_run_def Let_def split: prod.splits proc.splits)

lemma check_block_advances:
  "advances v (check_block env a tmpdir cb md v b)
     [mmdc_cmd cb (path_join tmpdir (scratch_stem md b))
        (path_join tmpdir (scratch_stem md b @ py ''.svg'')) (theme a) (config a)]
     [(path_join tmpdir (scratch_stem md b), content b)]"
proof -
  let ?i = "path_join tmpdir (scratch_stem md b)"
  let ?o = "path_join tmpdir (scratch_stem md b @ py ''.svg'')"
  let ?s1 = "write_text ?i (content b) (os v)"
  obtain ok msg s2 where r: "run_mmdc env cb ?i ?o (theme a) (config a) ?s1 = ((ok, msg), s2)"
    by (metis surj_pair)
  note f = run_mmdc_fields [OF r]
  let ?c = "(mmdc_cmd cb ?i ?o (theme a) (config a),
             fst (spawn env (world ?s1) (mmdc_cmd cb ?i ?o (theme a) (config a))))"
  show ?thesis
    unfolding advances_def
    by (rule exI [of _ "[?c]"]) (simp add: check_block_def Let_def r f)
qed

lemma check_block_found_any [simp]:
  "found_any (check_block env a tmpdir cb md v b) = found_any v"
  by (simp add: check_block_def Let_def split: prod.splits)

lemma foldl_check_block_found_any [simp]:
  "found_any (foldl (check_block env a tmpdir cb md) v bs) = found_any v"
  by (induction bs arbitrary: v) simp_all

lemma foldl_check_block_advances:
  "advances v (foldl (check_block env a tmpdir cb md) v bs)
     (map (\<lambda>b. mmdc_cmd cb (path_join tmpdir (scratch_stem md b))
        (path_join tmpdir (scratch_stem md b @ py ''.svg'')) (theme a) (config a)) bs)
     (map (\<lambda>b. (path_join tmpdir (scratch_stem md b), content b)) bs)"
proof (induction bs arbitrary: v)
  case Nil
  show ?case by (simp add: advances_refl)
next
  case (Cons b bs)
  from advances_trans [OF check_block_advances Cons.IH]
  show ?case by simp
qed

lemma check_document_advances:
  "advances v (check_document env a tmpdir cb v md)
     (map (\<lambda>b. mmdc_cmd cb (path_join tmpdir (scratch_stem md b))
        (path_join tmpdir (scratch_stem md b @ py ''.svg'')) (theme a) (config a))
        (find_mermaid_blocks env md))
     (map (\<lambda>b. (path_join tmpdir (scratch_stem md b), content b)) (find_mermaid_blocks env md))"
proof (cases "find_mermaid_blocks env md = []")
  case True
  then show ?thesis by (simp add: check_document_def advances_refl)
next
  case False
  have "advances v (v\<lparr>found_any := 1\<rparr>) [] []" by (simp add: advances_def)
  from advances_trans [OF this foldl_check_block_advances]
  show ?thesis using False by (simp add: check_document_def Let_def)
qed

lemma check_document_found_any:
  "found_any (check_document env a tmpdir cb v md) =
     (if find_mermaid_blocks env md = [] then found_any v else 1)"
  by (simp add: check_document_def Let_def)

lemma foldl_check_document_advances:
  "advances v (foldl (check_document env a tmpdir cb) v files)
     (concat (map (\<lambda>md. map (\<lambda>b. mmdc_cmd cb (path_join tmpdir (scratch_stem md b))
        (path_join tmpdir (scratch_stem md b @ py ''.svg'')) (theme a) (config a))
        (find_mermaid_blocks env md)) files))
     (concat (map (\<lambda>md. map (\<lambda>b. (path_join tmpdir (scratch_stem md b), content b))
        (find_mermaid_blocks env md)) files))"
proof (induction files arbitrary: v)
  case Nil
  show ?case by (simp add: advances_refl)
next
  case (Cons md files)
  from advances_trans [OF check_document_advances Cons.IH]
  show ?case by simp
qed

lemma foldl_check_document_found_any:
  "found_any (foldl (check_document env a tmpdir cb) v files) = 0 \<longleftrightarrow>
     found_any v = 0 \<and> (\<forall>md\<in>set files. find_mermaid_blocks env md = [])"
  by (induction files arbitrary: v) (auto simp: check_document_found_any)

lemma which_mmdc_not_empty: "which_mmdc env \<noteq> Some []"
  by (simp add: which_mmdc_def split: option.splits list.splits)

lemma cleanup_fields [simp]:
  "calls (cleanup env a t s) = calls s" "written (cleanup env a t s) = written s"
  "made_dirs (cleanup env a t s) = made_dirs s"
  "stdout_lines (cleanup env a t s) = stdout_lines s"
  by (simp_all add: cleanup_def stdout_lines_def split: prod.splits)

lemma concat_map_map: "concat (map (\<lambda>x. map (f x) (g x)) xs) = map (\<lambda>(x, y). f x y) (concat (map (\<lambda>x. map (Pair x) (g x)) xs))"
  by (induction xs) (simp_all add: comp_def)


lemma main_run:
  assumes "\<not> startup_error env a"
  shows "main env a s =
       (if found_any (loop_result env a s) = 0 then
          (0, cleanup env a (run_tmpdir env s)
                (print Stdout (py ''No Mermaid blocks found in inputs.'') (os (loop_result env a s))))
        else
          (if failed (loop_result env a s) = 0 then 0 else 1,
           cleanup env a (run_tmpdir env s)
             (print Stdout
                (py ''Checked: '' @ str_nat (total (loop_result env a s)) @ py ''   Failed: ''
                   @ str_nat (failed (loop_result env a s)))
                (print Stdout (py ''----'') (os (loop_result env a s))))))"
proof -
  from assms have n: "which_mmdc env \<noteq> None"
    "\<not> (case config a of Some c \<Rightarrow> \<not> exists env c | None \<Rightarrow> False)" "input_files env a \<noteq> []"
    unfolding startup_error_def by argo+
  from n(1) obtain cb where cb: "which_mmdc env = Some cb" "cb \<noteq> []"
    using which_mmdc_not_empty [of env] by (cases "which_mmdc env") auto
  obtain t w where mk: "mkdtemp env (world s) (py ''mermaid_check_'') = (t, w)"
    by (metis surj_pair)
  with cb n(2,3) show ?thesis
    by (simp add: main_def loop_result_def run_tmpdir_def tempfile_mkdtemp_def Let_def)
qed

lemma loop_result_facts:
  shows loop_calls: "calls (os (loop_result env a s)) = calls s @ new_calls s (os (loop_result env a s))"
    and loop_cmds: "map fst (new_calls s (os (loop_result env a s))) =
       map (\<lambda>(md, b). mmdc_cmd (the (which_mmdc env)) (in_file_of (run_tmpdir env s) md b)
         (path_join (run_tmpdir env s) (scratch_stem md b @ py ''.svg'')) (theme a) (config a))
         (run_blocks env a)"
    and loop_failed: "failed (loop_result env a s) =
       length (filter (\<lambda>c. \<not> succeeded (snd c)) (new_calls s (os (loop_result env a s))))"
    and loop_total: "total (loop_result env a s) = length (run_blocks env a)"
    and loop_written: "written (os (loop_result env a s)) =
       written s @ map (\<lambda>(md, b). (in_file_of (run_tmpdir env s) md b, content b)) (run_blocks env a)"
    and loop_made_dirs: "made_dirs (os (loop_result env a s)) = made_dirs s @ [run_tmpdir env s]"
    and loop_found_any: "(found_any (loop_result env a s) = 0) = (run_blocks env a = [])"
proof -
  let ?t = "run_tmpdir env s"
  let ?cb = "the (which_mmdc env)"
  obtain w where mk: "mkdtemp env (world s) (py ''mermaid_check_'') = (?t, w)"
    by (simp add: run_tmpdir_def prod_eq_iff)
  let ?sa = "s\<lparr>world := w, made_dirs := made_dirs s @ [?t]\<rparr>"
  let ?init = "\<lparr>failed = 0, total = 0, found_any = 0, os = ?sa\<rparr>"
  let ?v = "loop_result env a s"
  have v: "?v = foldl (check_document env a ?t ?cb) ?init (input_files env a)"
    by (simp add: loop_result_def tempfile_mkdtemp_def mk)
  have "advances ?init ?v
     (concat (map (\<lambda>md. map (\<lambda>b. mmdc_cmd ?cb (path_join ?t (scratch_stem md b))
        (path_join ?t (scratch_stem md b @ py ''.svg'')) (theme a) (config a))
        (find_mermaid_blocks env md)) (input_files env a)))
     (concat (map (\<lambda>md. map (\<lambda>b. (path_join ?t (scratch_stem md b), content b))
        (find_mermaid_blocks env md)) (input_files env a)))"
    unfolding v by (rule foldl_check_document_advances)
  then obtain cs where
    a: "calls (os ?v) = calls ?sa @ cs"
       "map fst cs = concat (map (\<lambda>md. map (\<lambda>b. mmdc_cmd ?cb (path_join ?t (scratch_stem md b))
        (path_join ?t (scratch_stem md b @ py ''.svg'')) (theme a) (config a))
        (find_mermaid_blocks env md)) (input_files env a))"
       "failed ?v = failed ?init + length (filter (\<lambda>c. \<not> succeeded (snd c)) cs)"
       "total ?v = total ?init + length (concat (map (\<lambda>md. map (\<lambda>b. mmdc_cmd ?cb (path_join ?t (scratch_stem md b))
        (path_join ?t (scratch_stem md b @ py ''.svg'')) (theme a) (config a))
        (find_mermaid_blocks env md)) (input_files env a)))"
       "written (os ?v) = written ?sa @ concat (map (\<lambda>md. map (\<lambda>b. (path_join ?t (scratch_stem md b), content b))
        (find_mermaid_blocks env md)) (input_files env a))"
       "made_dirs (os ?v) = made_dirs ?sa"
    unfolding advances_def by (elim exE conjE) (simp only: vars.simps)
  have c1: "calls (os ?v) = calls s @ cs" using a(1) by simp
  then have nc: "new_calls s (os ?v) = cs" by (simp add: new_calls_def)
  show "calls (os ?v) = calls s @ new_calls s (os ?v)" using c1 nc by simp
  show "map fst (new_calls s (os ?v)) = map (\<lambda>(md, b). mmdc_cmd ?cb (in_file_of ?t md b)
        (path_join ?t (scratch_stem md b @ py ''.svg'')) (theme a) (config a)) (run_blocks env a)"
    unfolding nc a(2) run_blocks_def in_file_of_def
    by (rule concat_map_map [of "\<lambda>md b. mmdc_cmd ?cb (path_join ?t (scratch_stem md b))
        (path_join ?t (scratch_stem md b @ py ''.svg'')) (theme a) (config a)"])
  show "failed ?v = length (filter (\<lambda>c. \<not> succeeded (snd c)) (new_calls s (os ?v)))"
    using a(3) nc by simp
  show "total ?v = length (run_blocks env a)"
    using a(4) by (simp add: run_blocks_def length_concat comp_def)
  show "written (os ?v) = written s @ map (\<lambda>(md, b). (in_file_of ?t md b, content b)) (run_blocks env a)"
    unfolding a(5) run_blocks_def in_file_of_def
    using concat_map_map [of "\<lambda>md b. (path_join ?t (scratch_stem md b), content b)"
        "find_mermaid_blocks env" "input_files env a"]
    by simp
  show "made_dirs (os ?v) = made_dirs s @ [?t]" using a(6) by simp
  show "(found_any ?v = 0) = (run_blocks env a = [])"
    unfolding v by (simp add: foldl_check_document_found_any run_blocks_def)
qed

section \<open>Input files and scratch names\<close>



lemma dedup_loop_distinct:
  "distinct deduped \<Longrightarrow> set deduped \<subseteq> seen \<Longrightarrow> distinct (dedup_loop env seen deduped ps)"
proof (induction ps arbitrary: seen deduped)
  case Nil
  then show ?case by simp
next
  case (Cons p ps)
  show ?case
  proof (cases "resolve env p \<in> seen")
    case True
    with Cons show ?thesis by (simp add: Let_def)
  next
    case False
    with Cons.prems have "distinct (deduped @ [resolve env p])"
      "set (deduped @ [resolve env p]) \<subseteq> insert (resolve env p) seen"
      by auto
    from Cons.IH [OF this] False show ?thesis by (simp add: Let_def)
  qed
qed

lemma distinct_input_files: "distinct (input_files env a)"
  by (simp add: input_files_def expand_inputs_def dedup_loop_distinct)


lemma str_nat_digits: "list_all is_digit (str_nat n)"
proof (induction n rule: str_nat.induct)
  case (1 n)
  show ?case
  proof (cases "n < 10")
    case True
    then show ?thesis by (subst str_nat.simps) (simp add: is_digit_def)
  next
    case False
    have "n mod 10 < 10" by simp
    then have "is_digit (48 + n mod 10)" unfolding is_digit_def by linarith
    with False 1 show ?thesis by (subst str_nat.simps) simp
  qed
qed

lemma decimal_value_snoc: "decimal_value (ds @ [c]) = 10 * decimal_value ds + (c - 48)"
  by (simp add: decimal_value_def)

lemma decimal_value_str_nat: "decimal_value (str_nat n) = n"
proof (induction n rule: str_nat.induct)
  case (1 n)
  show ?case
  proof (cases "n < 10")
    case True
    then show ?thesis by (subst str_nat.simps) (simp add: decimal_value_def)
  next
    case False
    with 1 have "decimal_value (str_nat (n div 10)) = n div 10" by simp
    with False show ?thesis
      by (subst str_nat.simps) (simp add: decimal_value_snoc)
  qed
qed

lemma decimal_value_zeros: "decimal_value (replicate k 48 @ ds) = decimal_value ds"
  by (induction k) (simp_all add: decimal_value_def)

lemma decimal_value_fmt_03d: "decimal_value (fmt_03d n) = n"
  by (simp add: fmt_03d_def decimal_value_zeros decimal_value_str_nat)

lemma fmt_03d_digits: "list_all is_digit (fmt_03d n)"
  using str_nat_digits [of n] by (auto simp: fmt_03d_def list_all_iff is_digit_def)

lemma fmt_03d_inj: "fmt_03d m = fmt_03d n \<longleftrightarrow> m = n"
  using decimal_value_fmt_03d by metis

lemma takeWhile_stop:
  "\<forall>x\<in>set ds. P x \<Longrightarrow> \<not> P u \<Longrightarrow> takeWhile P (ds @ u # r) = ds"
  by (induction ds) simp_all

lemma digit_suffix_unique:
  assumes "xs @ [u] @ ds = ys @ [u] @ es" "\<not> is_digit u" "list_all is_digit ds" "list_all is_digit es"
  shows "xs = ys \<and> ds = es"
proof -
  have "takeWhile is_digit (rev (xs @ [u] @ ds)) = rev ds"
    using assms(2,3) by (simp add: list_all_iff takeWhile_stop)
  moreover have "takeWhile is_digit (rev (ys @ [u] @ es)) = rev es"
    using assms(2,4) by (simp add: list_all_iff takeWhile_stop)
  ultimately have "rev ds = rev es" using assms(1) by metis
  then have "ds = es" by simp
  with assms(1) show ?thesis by simp
qed

lemma scratch_stem_eq:
  "scratch_stem md b = scratch_stem md' b' \<longleftrightarrow>
     safe_name md = safe_name md' \<and> index_in_file b = index_in_file b'"
proof
  assume "scratch_stem md b = scratch_stem md' b'"
  then have "(safe_name md @ py ''.block'') @ [95] @ fmt_03d (index_in_file b) =
             (safe_name md' @ py ''.block'') @ [95] @ fmt_03d (index_in_file b')"
    by (simp add: scratch_stem_def py_def)
  then have "safe_name md @ py ''.block'' = safe_name md' @ py ''.block'' \<and>
             fmt_03d (index_in_file b) = fmt_03d (index_in_file b')"
    by (rule digit_suffix_unique) (simp_all add: is_digit_def fmt_03d_digits)
  then show "safe_name md = safe_name md' \<and> index_in_file b = index_in_file b'"
    by (simp add: fmt_03d_inj)
next
  assume "safe_name md = safe_name md' \<and> index_in_file b = index_in_file b'"
  then show "scratch_stem md b = scratch_stem md' b'" by (simp add: scratch_stem_def)
qed

lemma in_file_of_eq:
  "in_file_of t md b = in_file_of t md' b' \<longleftrightarrow>
     safe_name md = safe_name md' \<and> index_in_file b = index_in_file b'"
  by (simp add: in_file_of_def path_join_def scratch_stem_eq)

lemma find_mermaid_blocks_idx:
  "map index_in_file (find_mermaid_blocks env p) = [1..<Suc (length (find_mermaid_blocks env p))]"
  by (cases "node env p") (simp_all add: find_mermaid_blocks_def scan_lines_idx)

lemma find_mermaid_blocks_inj: "inj_on index_in_file (set (find_mermaid_blocks env p))"
  and find_mermaid_blocks_distinct: "distinct (find_mermaid_blocks env p)"
proof -
  have "distinct (map index_in_file (find_mermaid_blocks env p))"
    by (simp only: find_mermaid_blocks_idx distinct_upt)
  then show "inj_on index_in_file (set (find_mermaid_blocks env p))"
    and "distinct (find_mermaid_blocks env p)"
    by (simp_all add: distinct_map)
qed

lemma run_blocks_mem:
  "(md, b) \<in> set (run_blocks env a) \<longleftrightarrow>
     md \<in> set (input_files env a) \<and> b \<in> set (find_mermaid_blocks env md)"
  by (auto simp: run_blocks_def)

lemma distinct_pairs_concat:
  "distinct xs \<Longrightarrow> (\<And>x. distinct (g x)) \<Longrightarrow>
   distinct (concat (map (\<lambda>x. map (Pair x) (g x)) xs))"
  by (induction xs) (auto simp: distinct_map inj_on_def)

lemma distinct_run_blocks: "distinct (run_blocks env a)"
  unfolding run_blocks_def
  by (rule distinct_pairs_concat) (simp_all add: distinct_input_files find_mermaid_blocks_distinct)

lemma distinct_in_files:
  assumes "inj_on safe_name (set (input_files env a))"
  shows "distinct (map (\<lambda>(md, b). in_file_of t md b) (run_blocks env a))"
proof -
  have "inj_on (\<lambda>(md, b). in_file_of t md b) (set (run_blocks env a))"
  proof (rule inj_onI)
    fix x y
    assume x: "x \<in> set (run_blocks env a)" and y: "y \<in> set (run_blocks env a)"
      and e: "(\<lambda>(md, b). in_file_of t md b) x = (\<lambda>(md, b). in_file_of t md b) y"
    obtain md b md' b' where xy: "x = (md, b)" "y = (md', b')" by (metis surj_pair)
    with x y have m: "md \<in> set (input_files env a)" "b \<in> set (find_mermaid_blocks env md)"
      "md' \<in> set (input_files env a)" "b' \<in> set (find_mermaid_blocks env md')"
      by (simp_all add: run_blocks_mem)
    from e xy have q: "safe_name md = safe_name md'" "index_in_file b = index_in_file b'"
      by (simp_all add: in_file_of_eq)
    from q(1) m(1,3) assms have "md = md'" by (meson inj_onD)
    moreover with q(2) m(2,4) have "b = b'"
      using find_mermaid_blocks_inj [of env md] by (meson inj_onD)
    ultimately show "x = y" using xy by simp
  qed
  then show ?thesis by (simp add: distinct_map distinct_run_blocks)
qed

section \<open>A run as a whole\<close>

lemma new_calls_print [simp]: "new_calls s (print f l s') = new_calls s s'"
  by (simp add: new_calls_def)

lemma new_calls_cleanup [simp]: "new_calls s (cleanup env a t s') = new_calls s s'"
  by (simp add: new_calls_def)

lemma new_written_print [simp]: "new_written s (print f l s') = new_written s s'"
  by (simp add: new_written_def)

lemma new_written_cleanup [simp]: "new_written s (cleanup env a t s') = new_written s s'"
  by (simp add: new_written_def)

lemma stdout_lines_print [simp]:
  "stdout_lines (print Stdout l s) = stdout_lines s @ [l]"
  by (simp add: stdout_lines_def)


lemma main_new_written:
  "\<not> startup_error env a \<Longrightarrow>
   new_written s (snd (main env a s)) =
     map (\<lambda>(md, b). (in_file_of (run_tmpdir env s) md b, content b)) (run_blocks env a)"
  by (simp add: main_run) (simp add: new_written_def loop_written)


section \<open>The two decoders\<close>


section \<open>Claims about block extraction\<close>

text \<open>
  Claim C5. For every document the extractor's blocks carry the indices 1, 2, ..., n in
  this order. Blocks are numbered as they close: the blocks of an initial part of the
  document are an initial part of the blocks of the document, there are no more blocks
  than closing fence lines, and lines that hold no closing fence add no block, so that an
  opening fence left open at the end of the document gives none.
\<close>

theorem index_in_file_contiguous:
  "map index_in_file (find_mermaid_blocks env p) =
     [1..<Suc (length (find_mermaid_blocks env p))]
   \<and> length (scan_lines p ls) \<le> length (filter (re_match END_FENCE_RE) ls)
   \<and> take (length (scan_lines p ls)) (scan_lines p (ls @ ys)) = scan_lines p ls
   \<and> ((\<forall>l\<in>set ys. \<not> re_match END_FENCE_RE l) \<longrightarrow> scan_lines p (ls @ ys) = scan_lines p ls)"
proof -
  have "map index_in_file (find_mermaid_blocks env p) =
     [1..<Suc (length (find_mermaid_blocks env p))]"
    by (cases "node env p") (simp_all add: find_mermaid_blocks_def scan_lines_idx)
  then show ?thesis
    using scan_lines_count [of p ls] scan_lines_append_no_end [of ys p ls]
      scan_lines_prefix [of p ls ys] by blast
qed

text \<open>
  In the document \<open>/w/README.md\<close> of the example, two blocks close and a third fence stays
  open; an opening fence and a line after one closed block add nothing.
\<close>

theorem index_in_file_contiguous_witness:
  "map index_in_file (find_mermaid_blocks demo_env (py ''/w/README.md'')) = [1, 2]
   \<and> scan_lines (py ''/w/README.md'')
         ([py ''```mermaid'', py ''A'', py ''```''] @ [py ''```mermaid'', py ''B''])
       = scan_lines (py ''/w/README.md'') [py ''```mermaid'', py ''A'', py ''```'']"
proof -
  have n: "length (find_mermaid_blocks demo_env (py ''/w/README.md'')) = 2"
    by (simp add: text_defs re_defs scan_defs demo_defs)
  have h: "\<forall>l\<in>set [py ''```mermaid'', py ''B'']. \<not> re_match END_FENCE_RE l"
    by (simp add: text_defs re_defs)
  show ?thesis
    using index_in_file_contiguous [of demo_env "py ''/w/README.md''"
        "[py ''```mermaid'', py ''A'', py ''```'']" "[py ''```mermaid'', py ''B'']"] n h
    by (simp add: upt_rec)
qed




section \<open>Claims about a run\<close>





section \<open>Claims about reading a document\<close>





end
